theory Spec2Isabelle
  imports Main "HOL-Library.AList" "HOL-Library.Multiset" "HOL-Library.Sublist"
begin

section \<open>Data model\<close>

text \<open>
  The two applications, \<^verbatim>\<open>apps/File_Format_Converter/app.py\<close> (the converter) and
  \<^verbatim>\<open>apps/file-to-db-loader/app.py\<close> (the loader), share \<^verbatim>\<open>get_column_names\<close> word for
  word. Functions that differ are prefixed \<open>fc_\<close> (converter) and \<open>db_\<close> (loader).

  A row of a delimited file is the list of its fields. A schema column is the JSON object
  \<^verbatim>\<open>{"column_name": ..., "column_position": ...}\<close>. The loaded schema is a Python dict:
  an association list with distinct keys, in insertion order.
\<close>

type_synonym row = "string list"

record column =
  column_name :: string
  column_position :: int

type_synonym schemas = "(string \<times> column list) list"

record dataframe =
  columns :: "string list"
  rows :: "row list"

text \<open>
  Exceptions. \<open>NameError\<close>, \<open>KeyError\<close>, \<open>IndexError\<close> and \<open>ValueError\<close> are
  Python's own. \<open>SchemaFileError\<close> stands for whatever \<^verbatim>\<open>json.load(open(...))\<close> raises on a
  missing or unparsable schema file, \<open>PandasError\<close> for whatever \<^verbatim>\<open>pd.read_csv\<close> raises on a
  file it cannot read. None of the last four is a subclass of \<open>NameError\<close>; all six are
  subclasses of \<open>Exception\<close>.
\<close>

datatype py_error =
    NameError string
  | KeyError string
  | IndexError
  | ValueError
  | SchemaFileError
  | PandasError

text \<open>
  The world the scripts read: the JSON documents on disk (the key/value pairs in document
  order, \<open>None\<close> when the file cannot be opened or parsed), what \<^verbatim>\<open>glob.glob\<close> returns
  for a pattern, and the data rows pandas parses from a file (\<open>None\<close> when it raises).
  The source tree is only read; the sinks write elsewhere.
\<close>

record env =
  json_file :: "string \<Rightarrow> (string \<times> column list) list option"
  glob :: "string \<Rightarrow> string list"
  csv :: "string \<Rightarrow> row list option"

text \<open>One constructor per \<^verbatim>\<open>print\<close> statement of the two scripts.\<close>

datatype event =
    Processing string
  | Printed py_error
  | ErrorProcessing string
  | Populating nat string
  | Completed string

record console =
  out :: "event list"

text \<open>Converter sink: the directories made and the JSON-lines files written, by path.\<close>

record fc_state = console +
  dirs :: "string set"
  files :: "string \<Rightarrow> dataframe option"

text \<open>
  Loader sink: the tables of the store, by connection URI and table name, and the sizes of
  the worker pools created.
\<close>

record db_state = console +
  tables :: "string \<times> string \<Rightarrow> row list option"
  pools :: "nat list"

definition print :: "event \<Rightarrow> 'a console_scheme \<Rightarrow> 'a console_scheme" where
  "print ev st = st\<lparr>out := out st @ [ev]\<rparr>"

text \<open>The dataset names a run has started, read off the \<^verbatim>\<open>Processing ...\<close> lines.\<close>

fun started :: "event list \<Rightarrow> string list" where
  "started [] = []"
| "started (Processing ds # evs) = ds # started evs"
| "started (_ # evs) = started evs"

section \<open>Schema registry\<close>

text \<open>
  \<^verbatim>\<open>json.load\<close> builds the dict pair by pair: a repeated key keeps its first place and takes
  the last value.
\<close>

definition load_schemas :: "env \<Rightarrow> string \<Rightarrow> py_error + schemas" where
  "load_schemas e src_base_dir =
     (case json_file e (src_base_dir @ ''/schemas.json'') of
        None \<Rightarrow> Inl SchemaFileError
      | Some pairs \<Rightarrow> Inr (foldl (\<lambda>d (k, v). AList.update k v d) [] pairs))"

text \<open>
  \<^verbatim>\<open>schemas[ds_name]\<close> raises \<open>KeyError\<close> on a missing key; \<^verbatim>\<open>sorted(..., key=...)\<close> is a
  stable sort, and so is \<open>sort_key\<close>.
\<close>

definition get_column_names :: "schemas \<Rightarrow> string \<Rightarrow> py_error + string list" where
  "get_column_names schemas ds_name =
     (case map_of schemas ds_name of
        None \<Rightarrow> Inl (KeyError ds_name)
      | Some column_details \<Rightarrow>
          Inr (map column_name (sort_key column_position column_details)))"

section \<open>Readers\<close>

text \<open>\<^verbatim>\<open>re.split('[/\\]', file)\<close>: split at every slash and backslash, keeping empty pieces.\<close>

definition is_sep :: "char \<Rightarrow> bool" where
  "is_sep c \<longleftrightarrow> c = CHR ''/'' \<or> c = CHR 0x5C"

fun re_split :: "string \<Rightarrow> string list" where
  "re_split [] = [[]]"
| "re_split (c # cs) =
     (if is_sep c then [] # re_split cs
      else (case re_split cs of [] \<Rightarrow> [[c]] | s # ss \<Rightarrow> (c # s) # ss))"

text \<open>
  \<^verbatim>\<open>file_path_list[-2]\<close> raises \<open>IndexError\<close> when the path has fewer than two pieces.
\<close>

definition parent_segment :: "string \<Rightarrow> py_error + string" where
  "parent_segment file =
     (let file_path_list = re_split file in
      if length file_path_list < 2 then Inl IndexError
      else Inr (file_path_list ! (length file_path_list - 2)))"

text \<open>The converter reads the whole file into one frame.\<close>

definition fc_read_csv :: "env \<Rightarrow> string \<Rightarrow> schemas \<Rightarrow> py_error + dataframe" where
  "fc_read_csv e file schemas =
     (case parent_segment file of
        Inl err \<Rightarrow> Inl err
      | Inr ds_name \<Rightarrow>
          (case get_column_names schemas ds_name of
             Inl err \<Rightarrow> Inl err
           | Inr cols \<Rightarrow>
               (case csv e file of
                  None \<Rightarrow> Inl PandasError
                | Some rs \<Rightarrow> Inr \<lparr>columns = cols, rows = rs\<rparr>)))"

text \<open>
  The loader asks pandas for an iterator of frames of \<^verbatim>\<open>chunksize\<close> rows. The iterator
  hands out consecutive groups of \<open>n\<close> rows until the rows are used up. On a file without
  data rows its first read returns the empty frame (the parser's first-chunk case) and the
  second read stops, so such a file yields one empty frame.
\<close>

function chunks :: "nat \<Rightarrow> 'a list \<Rightarrow> 'a list list" where
  "chunks n xs = (if n = 0 \<or> xs = [] then [] else take n xs # chunks n (drop n xs))"
  by pat_completeness auto
termination
  by (relation "measure (\<lambda>(n, xs). length xs)") auto

definition text_file_reader :: "nat \<Rightarrow> row list \<Rightarrow> row list list" where
  "text_file_reader chunksize rs = (if rs = [] then [[]] else chunks chunksize rs)"

definition db_read_csv :: "env \<Rightarrow> string \<Rightarrow> schemas \<Rightarrow> py_error + dataframe list" where
  "db_read_csv e file schemas =
     (case parent_segment file of
        Inl err \<Rightarrow> Inl err
      | Inr ds_name \<Rightarrow>
          (case get_column_names schemas ds_name of
             Inl err \<Rightarrow> Inl err
           | Inr cols \<Rightarrow>
               (case csv e file of
                  None \<Rightarrow> Inl PandasError
                | Some rs \<Rightarrow>
                    Inr (map (\<lambda>b. \<lparr>columns = cols, rows = b\<rparr>) (text_file_reader 10000 rs)))))"

section \<open>Sink writers\<close>

text \<open>
  \<^verbatim>\<open>df.to_json(path, orient='records', lines=True)\<close> opens the path for writing: the file
  then holds this frame's records and nothing else.
\<close>

definition to_json :: "dataframe \<Rightarrow> string \<Rightarrow> string \<Rightarrow> string \<Rightarrow> fc_state \<Rightarrow> fc_state" where
  "to_json df tgt_base_dir ds_name file_name st =
     (let json_file_path = tgt_base_dir @ ''/'' @ ds_name @ ''/'' @ file_name in
      st\<lparr>dirs := insert (tgt_base_dir @ ''/'' @ ds_name) (dirs st),
         files := (files st)(json_file_path \<mapsto> df)\<rparr>)"

text \<open>
  \<^verbatim>\<open>df.to_sql(ds_name, db_conn_uri, if_exists='append', index=False)\<close> creates the table
  when it is missing and inserts the frame's rows after the rows already there.
\<close>

definition to_sql :: "dataframe \<Rightarrow> string \<Rightarrow> string \<Rightarrow> db_state \<Rightarrow> db_state" where
  "to_sql df db_conn_uri ds_name st =
     st\<lparr>tables := (tables st)((db_conn_uri, ds_name) \<mapsto>
           (case tables st (db_conn_uri, ds_name) of None \<Rightarrow> [] | Some old \<Rightarrow> old) @ rows df)\<rparr>"

section \<open>Dataset jobs\<close>

text \<open>
  A job returns the exception it raised, if any, with the state as the raise left it.
\<close>

definition last_segment :: "string \<Rightarrow> string" where
  "last_segment file = last (re_split file)"

fun fc_files :: "env \<Rightarrow> schemas \<Rightarrow> string \<Rightarrow> string \<Rightarrow> string list \<Rightarrow> fc_state
    \<Rightarrow> py_error option \<times> fc_state" where
  "fc_files e schemas tgt_base_dir ds_name [] st = (None, st)"
| "fc_files e schemas tgt_base_dir ds_name (file # rest) st =
     (case fc_read_csv e file schemas of
        Inl err \<Rightarrow> (Some err, st)
      | Inr df \<Rightarrow>
          fc_files e schemas tgt_base_dir ds_name rest
            (to_json df tgt_base_dir ds_name (last_segment file) st))"

definition file_converter :: "env \<Rightarrow> string \<Rightarrow> string \<Rightarrow> string \<Rightarrow> fc_state
    \<Rightarrow> py_error option \<times> fc_state" where
  "file_converter e src_base_dir tgt_base_dir ds_name st =
     (case load_schemas e src_base_dir of
        Inl err \<Rightarrow> (Some err, st)
      | Inr schemas \<Rightarrow>
          (let fs = glob e (src_base_dir @ ''/'' @ ds_name @ ''/part-*'') in
           if length fs = 0 then (Some (NameError (''file not found '' @ ds_name)), st)
           else fc_files e schemas tgt_base_dir ds_name fs st))"

fun populate :: "string \<Rightarrow> string \<Rightarrow> (nat \<times> dataframe) list \<Rightarrow> db_state \<Rightarrow> db_state" where
  "populate db_conn_uri ds_name [] st = st"
| "populate db_conn_uri ds_name ((idx, df) # rest) st =
     populate db_conn_uri ds_name rest
       (to_sql df db_conn_uri ds_name (print (Populating idx ds_name) st))"

fun db_files :: "env \<Rightarrow> schemas \<Rightarrow> string \<Rightarrow> string \<Rightarrow> string list \<Rightarrow> db_state
    \<Rightarrow> py_error option \<times> db_state" where
  "db_files e schemas db_conn_uri ds_name [] st = (None, st)"
| "db_files e schemas db_conn_uri ds_name (file # rest) st =
     (case db_read_csv e file schemas of
        Inl err \<Rightarrow> (Some err, st)
      | Inr df_reader \<Rightarrow>
          db_files e schemas db_conn_uri ds_name rest
            (populate db_conn_uri ds_name (List.enumerate 0 df_reader) st))"

definition db_loader :: "env \<Rightarrow> string \<Rightarrow> string \<Rightarrow> string \<Rightarrow> db_state
    \<Rightarrow> py_error option \<times> db_state" where
  "db_loader e src_base_dir db_conn_uri ds_name st =
     (case load_schemas e src_base_dir of
        Inl err \<Rightarrow> (Some err, st)
      | Inr schemas \<Rightarrow>
          (let fs = glob e (src_base_dir @ ''/'' @ ds_name @ ''/part-*'') in
           if fs = [] then (Some (NameError (''No files found for '' @ ds_name)), st)
           else db_files e schemas db_conn_uri ds_name fs st))"

section \<open>Dispatchers\<close>

text \<open>
  \<^verbatim>\<open>if not ds_names: ds_names = schemas.keys()\<close>: an absent argument and an empty list are
  both falsy.
\<close>

definition names_or_keys :: "string list option \<Rightarrow> schemas \<Rightarrow> string list" where
  "names_or_keys ds_names schemas =
     (case ds_names of
        None \<Rightarrow> map fst schemas
      | Some ns \<Rightarrow> (if ns = [] then map fst schemas else ns))"

text \<open>
  The converter's loop catches \<open>NameError\<close> only; any other exception leaves the loop and
  the function.
\<close>

fun fc_loop :: "env \<Rightarrow> string \<Rightarrow> string \<Rightarrow> string list \<Rightarrow> fc_state
    \<Rightarrow> py_error option \<times> fc_state" where
  "fc_loop e src_base_dir tgt_base_dir [] st = (None, st)"
| "fc_loop e src_base_dir tgt_base_dir (ds_name # rest) st =
     (case file_converter e src_base_dir tgt_base_dir ds_name (print (Processing ds_name) st) of
        (None, st') \<Rightarrow> fc_loop e src_base_dir tgt_base_dir rest st'
      | (Some (NameError msg), st') \<Rightarrow>
          fc_loop e src_base_dir tgt_base_dir rest
            (print (ErrorProcessing ds_name) (print (Printed (NameError msg)) st'))
      | (Some err, st') \<Rightarrow> (Some err, st'))"

definition fc_process_files :: "env \<Rightarrow> string \<Rightarrow> string \<Rightarrow> string list option \<Rightarrow> fc_state
    \<Rightarrow> py_error option \<times> fc_state" where
  "fc_process_files e src_base_dir tgt_base_dir ds_names st =
     (case load_schemas e src_base_dir of
        Inl err \<Rightarrow> (Some err, st)
      | Inr schemas \<Rightarrow>
          fc_loop e src_base_dir tgt_base_dir (names_or_keys ds_names schemas) st)"

text \<open>
  The loader's wrapper catches \<open>NameError\<close>, then \<open>Exception\<close>, prints either, and its
  \<^verbatim>\<open>finally\<close> prints the closing line in every case.
\<close>

definition process_dataset :: "env \<Rightarrow> string \<times> string \<times> string \<Rightarrow> db_state \<Rightarrow> db_state" where
  "process_dataset e args st =
     (case args of (src_base_dir, db_conn_uri, ds_name) \<Rightarrow>
        (case db_loader e src_base_dir db_conn_uri ds_name (print (Processing ds_name) st) of
           (None, st') \<Rightarrow> print (Completed ds_name) st'
         | (Some (NameError msg), st') \<Rightarrow>
             print (Completed ds_name) (print (Printed (NameError msg)) st')
         | (Some err, st') \<Rightarrow> print (Completed ds_name) (print (Printed err) st')))"

text \<open>
  \<^verbatim>\<open>pool.map\<close> hands one call per argument to the workers and waits for all of them. The
  model runs the calls one after the other in list order, one of the schedules the pool
  admits. \<^verbatim>\<open>multiprocessing.Pool(n)\<close> raises \<open>ValueError\<close> for \<open>n < 1\<close>.
\<close>

fun pool_map :: "('a \<Rightarrow> db_state \<Rightarrow> db_state) \<Rightarrow> 'a list \<Rightarrow> db_state \<Rightarrow> db_state" where
  "pool_map f [] st = st"
| "pool_map f (a # as) st = pool_map f as (f a st)"

definition db_process_files :: "env \<Rightarrow> string \<Rightarrow> string \<Rightarrow> string list option \<Rightarrow> db_state
    \<Rightarrow> py_error option \<times> db_state" where
  "db_process_files e src_base_dir db_conn_uri ds_names st =
     (case load_schemas e src_base_dir of
        Inl err \<Rightarrow> (Some err, st)
      | Inr schemas \<Rightarrow>
          (let names = names_or_keys ds_names schemas;
               pprocess = min (length names) 8
           in if pprocess < 1 then (Some ValueError, st)
              else
                (let st1 = st\<lparr>pools := pools st @ [pprocess]\<rparr>;
                     pd_args = map (\<lambda>ds_name. (src_base_dir, db_conn_uri, ds_name)) names
                 in (None, pool_map (process_dataset e) pd_args st1))))"

section \<open>Example environments\<close>

text \<open>
  A source root \<^verbatim>\<open>src\<close> with two datasets in the schema, \<^verbatim>\<open>orders\<close> (its columns out
  of position order, two of them at the same position) and \<^verbatim>\<open>customers\<close>, one part file
  each, and a directory \<^verbatim>\<open>foo\<close> with a part file but no schema entry.
\<close>

definition shop_doc :: "(string \<times> column list) list" where
  "shop_doc =
     [(''orders'', [\<lparr>column_name = ''amount'', column_position = 1\<rparr>,
                    \<lparr>column_name = ''id'', column_position = 0\<rparr>,
                    \<lparr>column_name = ''note'', column_position = 1\<rparr>]),
      (''customers'', [\<lparr>column_name = ''cid'', column_position = 0\<rparr>,
                       \<lparr>column_name = ''name'', column_position = 1\<rparr>])]"

definition shop :: env where
  "shop =
     \<lparr>json_file = (\<lambda>p. if p = ''src/schemas.json'' then Some shop_doc else None),
      glob = (\<lambda>pat. if pat = ''src/orders/part-*'' then [''src/orders/part-0000'']
                     else if pat = ''src/customers/part-*'' then [''src/customers/part-0000'']
                     else if pat = ''src/foo/part-*'' then [''src/foo/part-0000'']
                     else []),
      csv = (\<lambda>f. if f = ''src/orders/part-0000''
                    then Some [[''1'', ''9.99'', ''a''], [''2'', ''4.50'', ''b'']]
                  else if f = ''src/customers/part-0000'' then Some [[''7'', ''Ann'']]
                  else if f = ''src/foo/part-0000'' then Some [[''x'']]
                  else None)\<rparr>"

definition fc_init :: fc_state where
  "fc_init = \<lparr>out = [], dirs = {}, files = Map.empty\<rparr>"

definition db_init :: db_state where
  "db_init = \<lparr>out = [], tables = Map.empty, pools = []\<rparr>"

text \<open>The same source root with the \<^verbatim>\<open>orders\<close> part file holding no rows.\<close>

definition shop_empty :: env where
  "shop_empty = shop\<lparr>csv := (csv shop)(''src/orders/part-0000'' \<mapsto> [])\<rparr>"

text \<open>The same source root with an \<^verbatim>\<open>orders\<close> part file that pandas cannot parse.\<close>

definition shop_bad :: env where
  "shop_bad = shop\<lparr>csv := (csv shop)(''src/orders/part-0000'' := None)\<rparr>"

text \<open>A schema whose only dataset lives one directory deeper, \<^verbatim>\<open>src/eu/returns\<close>.\<close>

definition nested_doc :: "(string \<times> column list) list" where
  "nested_doc = [(''eu/returns'', [\<lparr>column_name = ''rid'', column_position = 0\<rparr>])]"

definition shop_nested :: env where
  "shop_nested =
     \<lparr>json_file = (\<lambda>p. if p = ''src/schemas.json'' then Some nested_doc else None),
      glob = (\<lambda>pat. if pat = ''src/eu/returns/part-*'' then [''src/eu/returns/part-0000'']
                     else []),
      csv = (\<lambda>f. if f = ''src/eu/returns/part-0000'' then Some [[''r1'']] else None)\<rparr>"

text \<open>A target root that already holds the output of an earlier run.\<close>

definition fc_rerun :: fc_state where
  "fc_rerun =
     \<lparr>out = [], dirs = {''tgt/orders''},
      files = [''tgt/orders/part-0000'' \<mapsto> \<lparr>columns = [''id''], rows = [[''1'']]\<rparr>]\<rparr>"

section \<open>Lemmas on the chunk iterator\<close>

declare chunks.simps [simp del]

lemma chunks_Nil [simp]: "chunks n [] = []"
  by (subst chunks.simps) simp

lemma chunks_step: "0 < n \<Longrightarrow> xs \<noteq> [] \<Longrightarrow> chunks n xs = take n xs # chunks n (drop n xs)"
  by (subst chunks.simps) simp

lemma chunks_short: "0 < n \<Longrightarrow> xs \<noteq> [] \<Longrightarrow> length xs \<le> n \<Longrightarrow> chunks n xs = [xs]"
  by (simp add: chunks_step)

lemma concat_chunks: "0 < n \<Longrightarrow> concat (chunks n xs) = xs"
proof (induction n xs rule: chunks.induct)
  case (1 n xs)
  then show ?case by (cases "xs = []") (simp_all add: chunks_step)
qed

lemma div_add_divisor: "0 < (n::nat) \<Longrightarrow> (k + n) div n = Suc (k div n)"
  by (simp add: div_add_self2)

lemma ceil_div_pos: "0 < (n::nat) \<Longrightarrow> 0 < m \<Longrightarrow> (m + n - 1) div n = Suc ((m - 1) div n)"
proof -
  assume a: "0 < n" "0 < m"
  then obtain k where k: "m = Suc k" by (cases m) auto
  have "(k + n) div n = Suc (k div n)" using a(1) by (rule div_add_divisor)
  with k show ?thesis by simp
qed

lemma length_chunks: "0 < n \<Longrightarrow> length (chunks n xs) = (length xs + n - 1) div n"
proof (induction n xs rule: chunks.induct)
  case (1 n xs)
  show ?case
  proof (cases "xs = []")
    case True
    with "1.prems" show ?thesis by simp
  next
    case False
    then have pos: "0 < length xs" by simp
    have up: "(length xs + n - 1) div n = Suc ((length xs - 1) div n)"
      using "1.prems" pos by (rule ceil_div_pos)
    show ?thesis
    proof (cases "length xs \<le> n")
      case True
      then have "length xs - 1 < n" using pos by linarith
      then have "(length xs - 1) div n = 0" by simp
      with up True False "1.prems" show ?thesis by (simp add: chunks_short)
    next
      case gt: False
      then have lt: "n < length xs" by simp
      have "length (chunks n (drop n xs)) = (length (drop n xs) + n - 1) div n"
        using "1.IH" False "1.prems" by blast
      moreover have "length (drop n xs) + n - 1 = length xs - 1" using lt by simp
      ultimately have "length (chunks n (drop n xs)) = (length xs - 1) div n" by simp
      with up False "1.prems" show ?thesis by (simp add: chunks_step)
    qed
  qed
qed

lemma chunks_butlast: "b \<in> set (butlast (chunks n xs)) \<Longrightarrow> length b = n"
proof (induction n xs arbitrary: b rule: chunks.induct)
  case (1 n xs)
  show ?case
  proof (cases "n = 0 \<or> xs = []")
    case True
    with "1.prems" show ?thesis by (subst (asm) chunks.simps) simp
  next
    case False
    then have st: "chunks n xs = take n xs # chunks n (drop n xs)" by (simp add: chunks_step)
    show ?thesis
    proof (cases "drop n xs = []")
      case True
      with "1.prems" st show ?thesis by simp
    next
      case dn: False
      then have len: "n < length xs" by simp
      from dn False have ne: "chunks n (drop n xs) \<noteq> []" by (simp add: chunks_step)
      from "1.prems" st ne have "b = take n xs \<or> b \<in> set (butlast (chunks n (drop n xs)))"
        by simp
      then show ?thesis
      proof
        assume "b = take n xs" with len show ?thesis by simp
      next
        assume "b \<in> set (butlast (chunks n (drop n xs)))"
        with "1.IH" False show ?thesis by blast
      qed
    qed
  qed
qed

lemma chunks_last:
  "0 < n \<Longrightarrow> xs \<noteq> [] \<Longrightarrow>
   length (last (chunks n xs)) = (if length xs mod n = 0 then n else length xs mod n)"
proof (induction n xs rule: chunks.induct)
  case (1 n xs)
  from "1.prems" have st: "chunks n xs = take n xs # chunks n (drop n xs)"
    by (simp add: chunks_step)
  show ?case
  proof (cases "drop n xs = []")
    case True
    then have le: "length xs \<le> n" by simp
    have "chunks n xs = [xs]" using le "1.prems" by (simp add: chunks_short)
    moreover have "length xs \<noteq> 0" using "1.prems" by simp
    ultimately show ?thesis using le "1.prems" by (cases "length xs = n") auto
  next
    case False
    then have len: "n < length xs" by simp
    from False "1.prems" have ne: "chunks n (drop n xs) \<noteq> []" by (simp add: chunks_step)
    have "last (chunks n xs) = last (chunks n (drop n xs))" using ne st by simp
    moreover have "length (last (chunks n (drop n xs))) =
        (if length (drop n xs) mod n = 0 then n else length (drop n xs) mod n)"
      using "1.IH" "1.prems" False by blast
    moreover have "length (drop n xs) mod n = length xs mod n"
      using len by (simp add: le_mod_geq)
    ultimately show ?thesis by simp
  qed
qed

section \<open>Lemmas on path splitting\<close>

lemma re_split_nonempty [simp]: "re_split s \<noteq> []"
  by (induction s) (auto split: list.splits)

lemma re_split_plain: "\<forall>c\<in>set s. \<not> is_sep c \<Longrightarrow> re_split s = [s]"
  by (induction s) auto

lemma re_split_sep: "is_sep c \<Longrightarrow> re_split (p @ c # q) = re_split p @ re_split q"
  by (induction p) (auto split: list.splits)

lemma parent_segment_path:
  assumes "q = [] \<or> is_sep (last q)" "is_sep c" "\<forall>x\<in>set d. \<not> is_sep x"
    "\<forall>x\<in>set n. \<not> is_sep x"
  shows "parent_segment (q @ d @ c # n) = Inr d"
proof -
  have tail: "re_split (d @ c # n) = [d, n]"
    using assms(2,3,4) by (simp add: re_split_sep re_split_plain)
  from assms(1) show ?thesis
  proof
    assume "q = []"
    with tail show ?thesis by (simp add: parent_segment_def)
  next
    assume sep: "is_sep (last q)"
    show ?thesis
    proof (cases "q = []")
      case True
      with tail show ?thesis by (simp add: parent_segment_def)
    next
      case False
      then have q: "q = butlast q @ [last q]" by simp
      have "re_split (butlast q @ last q # (d @ c # n))
          = re_split (butlast q) @ re_split (d @ c # n)"
        using sep by (rule re_split_sep)
      then have "re_split ((butlast q @ [last q]) @ d @ c # n) = re_split (butlast q) @ [d, n]"
        using tail by simp
      with q have "re_split (q @ d @ c # n) = re_split (butlast q) @ [d, n]" by simp
      then show ?thesis by (simp add: parent_segment_def nth_append)
    qed
  qed
qed

section \<open>Column resolution\<close>

text \<open>
  Claim C7. For every dataset name that is not a key of the schema, column resolution
  fails with \<open>KeyError\<close> carrying that name (Python's form of the unknown-dataset error);
  it returns no column list.
\<close>

theorem unknown_dataset_raises_key_error:
  assumes "ds_name \<notin> fst ` set schemas"
  shows "get_column_names schemas ds_name = Inl (KeyError ds_name)"
proof -
  from assms have "map_of schemas ds_name = None"
    by (simp add: map_of_eq_None_iff)
  then show ?thesis by (simp add: get_column_names_def)
qed

theorem unknown_dataset_raises_key_error_witness:
  "''foo'' \<notin> fst ` set shop_doc
   \<and> get_column_names shop_doc ''foo'' = Inl (KeyError ''foo'')"
proof -
  have h: "''foo'' \<notin> fst ` set shop_doc" by (simp add: shop_doc_def)
  from h unknown_dataset_raises_key_error [OF h] show ?thesis by simp
qed

text \<open>
  Claim C4. For every dataset in the schema, column resolution returns the names of the
  schema's columns for that dataset, rearranged so that the positions ascend, and columns
  at the same position keep the order they have in the schema document: restricted to any
  one position, the result lists the same columns in the same order as the document.
\<close>

theorem column_names_sorted_stable:
  assumes "map_of schemas ds_name = Some column_details"
  shows "\<exists>cols. get_column_names schemas ds_name = Inr (map column_name cols)
           \<and> mset cols = mset column_details
           \<and> sorted (map column_position cols)
           \<and> (\<forall>k. filter (\<lambda>c. column_position c = k) cols
                  = filter (\<lambda>c. column_position c = k) column_details)"
proof -
  let ?cols = "sort_key column_position column_details"
  have "get_column_names schemas ds_name = Inr (map column_name ?cols)"
    using assms by (simp add: get_column_names_def)
  moreover have "mset ?cols = mset column_details" by simp
  moreover have "sorted (map column_position ?cols)" by (rule sorted_sort_key)
  moreover have "\<forall>k. filter (\<lambda>c. column_position c = k) ?cols
                  = filter (\<lambda>c. column_position c = k) column_details"
    by (simp add: sort_key_stable)
  ultimately show ?thesis by blast
qed

theorem column_names_sorted_stable_witness:
  "map_of shop_doc ''orders'' =
     Some [\<lparr>column_name = ''amount'', column_position = 1\<rparr>,
           \<lparr>column_name = ''id'', column_position = 0\<rparr>,
           \<lparr>column_name = ''note'', column_position = 1\<rparr>]
   \<and> get_column_names shop_doc ''orders'' = Inr [''id'', ''amount'', ''note'']
   \<and> (\<exists>cols :: column list.
          get_column_names shop_doc ''orders'' = Inr (map column_name cols)
          \<and> sorted (map column_position cols))"
proof -
  have h: "map_of shop_doc ''orders'' =
     Some [\<lparr>column_name = ''amount'', column_position = 1\<rparr>,
           \<lparr>column_name = ''id'', column_position = 0\<rparr>,
           \<lparr>column_name = ''note'', column_position = 1\<rparr>]"
    by (simp add: shop_doc_def)
  have v: "get_column_names shop_doc ''orders'' = Inr [''id'', ''amount'', ''note'']"
    by (simp add: get_column_names_def shop_doc_def)
  from column_names_sorted_stable [OF h] have
    "\<exists>cols :: column list.
          get_column_names shop_doc ''orders'' = Inr (map column_name cols)
          \<and> sorted (map column_position cols)"
    by blast
  with h v show ?thesis by blast
qed

section \<open>Chunked reading\<close>

lemma map_rows_frames: "map (rows \<circ> (\<lambda>b. \<lparr>columns = cols, rows = b\<rparr>)) bs = bs"
  by (induction bs) simp_all

lemma db_read_csv_rows:
  "csv e file = Some rs \<Longrightarrow> db_read_csv e file schemas = Inr df_reader \<Longrightarrow>
   map rows df_reader = text_file_reader 10000 rs"
  by (auto simp: db_read_csv_def map_rows_frames split: sum.splits)

text \<open>
  Claim C3, as amended. The loader's reader asks for batches of 10000 rows; the batches it
  gets are those of the chunk iterator, for which, at any batch size \<open>B > 0\<close>: a file of
  \<open>R \<ge> 1\<close> rows gives \<open>\<lceil>R / B\<rceil>\<close> batches (written \<open>(R + B - 1) div B\<close>), every batch but the
  last has \<open>B\<close> rows, the last has \<open>R mod B\<close> rows, or \<open>B\<close> when that is \<open>0\<close>; a file
  without rows gives one empty batch; and in both cases the batches concatenated in order
  are the file's rows. The converter's reader does not batch: it returns the file's rows as
  one frame.
\<close>

theorem chunked_read_batches:
  assumes "0 < B"
  shows "(rs \<noteq> [] \<longrightarrow>
            length (text_file_reader B rs) = (length rs + B - 1) div B
          \<and> (\<forall>b\<in>set (butlast (text_file_reader B rs)). length b = B)
          \<and> length (last (text_file_reader B rs))
              = (if length rs mod B = 0 then B else length rs mod B))
       \<and> text_file_reader B [] = [[]]
       \<and> concat (text_file_reader B rs) = rs
       \<and> (csv e file = Some rs \<and> db_read_csv e file schemas = Inr df_reader
            \<longrightarrow> map rows df_reader = text_file_reader 10000 rs)
       \<and> (csv e file = Some rs \<and> fc_read_csv e file schemas = Inr df
            \<longrightarrow> rows df = rs)"
proof (intro conjI impI ballI)
  assume ne: "rs \<noteq> []"
  then have tfr: "text_file_reader B rs = chunks B rs" by (simp add: text_file_reader_def)
  show "length (text_file_reader B rs) = (length rs + B - 1) div B"
    using assms by (simp add: tfr length_chunks)
  show "length (last (text_file_reader B rs))
          = (if length rs mod B = 0 then B else length rs mod B)"
    unfolding tfr using assms ne by (rule chunks_last)
  fix b assume "b \<in> set (butlast (text_file_reader B rs))"
  then show "length b = B" unfolding tfr by (rule chunks_butlast)
next
  show "text_file_reader B [] = [[]]" by (simp add: text_file_reader_def)
next
  show "concat (text_file_reader B rs) = rs"
    using assms by (simp add: text_file_reader_def concat_chunks)
next
  assume "csv e file = Some rs \<and> db_read_csv e file schemas = Inr df_reader"
  then show "map rows df_reader = text_file_reader 10000 rs"
    by (elim conjE) (rule db_read_csv_rows)
next
  assume "csv e file = Some rs \<and> fc_read_csv e file schemas = Inr df"
  then show "rows df = rs"
    by (auto simp: fc_read_csv_def split: sum.splits)
qed

lemma parent_orders: "parent_segment ''src/orders/part-0000'' = Inr ''orders''"
  by (simp add: parent_segment_def is_sep_def)

theorem chunked_read_batches_witness:
  "(0::nat) < 2
   \<and> length (text_file_reader 2 [[''1''], [''2''], [''3''], [''4''], [''5'']]) = 3
   \<and> length (last (text_file_reader 2 [[''1''], [''2''], [''3''], [''4''], [''5'']])) = 1
   \<and> concat (text_file_reader 2 [[''1''], [''2''], [''3''], [''4''], [''5'']])
       = [[''1''], [''2''], [''3''], [''4''], [''5'']]
   \<and> db_read_csv shop ''src/orders/part-0000'' shop_doc
       = Inr [\<lparr>columns = [''id'', ''amount'', ''note''],
              rows = [[''1'', ''9.99'', ''a''], [''2'', ''4.50'', ''b'']]\<rparr>]
   \<and> length (text_file_reader 10000 [[''1'', ''9.99'', ''a''], [''2'', ''4.50'', ''b'']]) = 1"
proof -
  have a: "length (text_file_reader 2 [[''1''], [''2''], [''3''], [''4''], [''5'']]) = 3
   \<and> length (last (text_file_reader 2 [[''1''], [''2''], [''3''], [''4''], [''5'']])) = 1
   \<and> concat (text_file_reader 2 [[''1''], [''2''], [''3''], [''4''], [''5'']])
       = [[''1''], [''2''], [''3''], [''4''], [''5'']]"
    using chunked_read_batches [of 2 "[[''1''], [''2''], [''3''], [''4''], [''5'']]"]
    by simp
  have b: "length (text_file_reader 10000 [[''1'', ''9.99'', ''a''], [''2'', ''4.50'', ''b'']]) = 1"
    using chunked_read_batches [of 10000 "[[''1'', ''9.99'', ''a''], [''2'', ''4.50'', ''b'']]"]
    by simp
  have c: "db_read_csv shop ''src/orders/part-0000'' shop_doc
       = Inr [\<lparr>columns = [''id'', ''amount'', ''note''],
              rows = [[''1'', ''9.99'', ''a''], [''2'', ''4.50'', ''b'']]\<rparr>]"
    by (simp add: db_read_csv_def parent_orders get_column_names_def shop_doc_def shop_def
        text_file_reader_def chunks_step)
  from a b c show ?thesis by simp
qed

text \<open>
  The claim as stated fails on a file without rows: the reader yields one batch, where
  \<open>\<lceil>0 / 10000\<rceil> = 0\<close>.
\<close>

theorem empty_file_one_batch_counterexample:
  "csv shop_empty ''src/orders/part-0000'' = Some []
   \<and> db_read_csv shop_empty ''src/orders/part-0000'' shop_doc
       = Inr [\<lparr>columns = [''id'', ''amount'', ''note''], rows = []\<rparr>]
   \<and> length [\<lparr>columns = [''id'', ''amount'', ''note''], rows = []\<rparr>]
       \<noteq> (length ([] :: row list) + 10000 - 1) div 10000"
  by (simp add: shop_empty_def shop_def db_read_csv_def parent_orders get_column_names_def
      shop_doc_def text_file_reader_def)

section \<open>Dataset name taken from the path\<close>

lemma map_of_not_key: "d \<notin> fst ` set schemas \<Longrightarrow> map_of schemas d = None"
  by (simp add: map_of_eq_None_iff)

text \<open>
  Claim C10. Take any path whose last two pieces are \<open>d\<close> and \<open>n\<close>: it ends in \<open>d\<close>, a
  separator and \<open>n\<close>, where \<open>d\<close> and \<open>n\<close> contain no separator and what comes before
  \<open>d\<close> is empty or ends in a separator. Both readers take \<open>d\<close>, the parent directory, as
  the dataset name: they fail with \<open>KeyError d\<close> when \<open>d\<close> is not a schema key and
  otherwise name the columns after \<open>d\<close>'s schema entry. The dataset name \<open>ds\<close> given to
  the job plays no part: a job whose first file has a parent directory outside the schema
  fails with that \<open>KeyError\<close>, whether or not \<open>ds\<close> is a key.
\<close>

theorem reader_resolves_parent_directory:
  assumes "q = [] \<or> is_sep (last q)" "is_sep c" "\<forall>x\<in>set d. \<not> is_sep x"
    "\<forall>x\<in>set n. \<not> is_sep x"
  shows "parent_segment (q @ d @ c # n) = Inr d
    \<and> (d \<notin> fst ` set schemas \<longrightarrow>
          fc_read_csv e (q @ d @ c # n) schemas = Inl (KeyError d)
        \<and> db_read_csv e (q @ d @ c # n) schemas = Inl (KeyError d))
    \<and> (map_of schemas d = Some cd \<and> csv e (q @ d @ c # n) = Some rs \<longrightarrow>
          fc_read_csv e (q @ d @ c # n) schemas
            = Inr \<lparr>columns = map column_name (sort_key column_position cd), rows = rs\<rparr>
        \<and> db_read_csv e (q @ d @ c # n) schemas
            = Inr (map (\<lambda>b. \<lparr>columns = map column_name (sort_key column_position cd), rows = b\<rparr>)
                     (text_file_reader 10000 rs)))
    \<and> (d \<notin> fst ` set schemas \<and> load_schemas e src = Inr schemas
        \<and> glob e (src @ ''/'' @ ds @ ''/part-*'') = (q @ d @ c # n) # rest \<longrightarrow>
          file_converter e src tgt ds st = (Some (KeyError d), st)
        \<and> db_loader e src uri ds st2 = (Some (KeyError d), st2))"
proof -
  let ?file = "q @ d @ c # n"
  have ps: "parent_segment ?file = Inr d"
    using assms by (rule parent_segment_path)
  have bad: "fc_read_csv e ?file schemas = Inl (KeyError d)
           \<and> db_read_csv e ?file schemas = Inl (KeyError d)"
    if "d \<notin> fst ` set schemas"
    using that
    by (simp add: fc_read_csv_def db_read_csv_def ps get_column_names_def map_of_not_key)
  have good: "fc_read_csv e ?file schemas
            = Inr \<lparr>columns = map column_name (sort_key column_position cd), rows = rs\<rparr>
        \<and> db_read_csv e ?file schemas
            = Inr (map (\<lambda>b. \<lparr>columns = map column_name (sort_key column_position cd), rows = b\<rparr>)
                     (text_file_reader 10000 rs))"
    if "map_of schemas d = Some cd" "csv e ?file = Some rs"
    using that by (simp add: fc_read_csv_def db_read_csv_def ps get_column_names_def)
  have job: "file_converter e src tgt ds st = (Some (KeyError d), st)
        \<and> db_loader e src uri ds st2 = (Some (KeyError d), st2)"
    if "d \<notin> fst ` set schemas" "load_schemas e src = Inr schemas"
       "glob e (src @ ''/'' @ ds @ ''/part-*'') = ?file # rest"
    using that bad by (simp add: file_converter_def db_loader_def)
  from ps bad good job show ?thesis by blast
qed

theorem reader_resolves_parent_directory_witness:
  "is_sep CHR ''/''
   \<and> ''eu/returns'' \<in> fst ` set nested_doc
   \<and> ''returns'' \<notin> fst ` set nested_doc
   \<and> load_schemas shop_nested ''src'' = Inr nested_doc
   \<and> glob shop_nested ''src/eu/returns/part-*'' = [''src/eu/returns/part-0000'']
   \<and> parent_segment ''src/eu/returns/part-0000'' = Inr ''returns''
   \<and> file_converter shop_nested ''src'' ''tgt'' ''eu/returns'' fc_init
       = (Some (KeyError ''returns''), fc_init)
   \<and> db_loader shop_nested ''src'' ''uri'' ''eu/returns'' db_init
       = (Some (KeyError ''returns''), db_init)"
proof -
  have s: "is_sep CHR ''/''" by (simp add: is_sep_def)
  have q: "''src/eu/'' = [] \<or> is_sep (last ''src/eu/'')" by (simp add: is_sep_def)
  have d: "\<forall>x\<in>set ''returns''. \<not> is_sep x" by (simp add: is_sep_def)
  have n: "\<forall>x\<in>set ''part-0000''. \<not> is_sep x" by (simp add: is_sep_def)
  have k: "''eu/returns'' \<in> fst ` set nested_doc" "''returns'' \<notin> fst ` set nested_doc"
    by (simp_all add: nested_doc_def)
  have l: "load_schemas shop_nested ''src'' = Inr nested_doc"
    by (simp add: load_schemas_def shop_nested_def nested_doc_def)
  have g: "glob shop_nested ''src/eu/returns/part-*'' = [''src/eu/returns/part-0000'']"
    by (simp add: shop_nested_def)
  from reader_resolves_parent_directory [OF q s d n, of nested_doc shop_nested
      _ _ "''src''" "''eu/returns''" "[]" "''tgt''" fc_init "''uri''" db_init] k l g
  have "parent_segment ''src/eu/returns/part-0000'' = Inr ''returns''
      \<and> file_converter shop_nested ''src'' ''tgt'' ''eu/returns'' fc_init
       = (Some (KeyError ''returns''), fc_init)
      \<and> db_loader shop_nested ''src'' ''uri'' ''eu/returns'' db_init
       = (Some (KeyError ''returns''), db_init)"
    by simp
  with s k l g show ?thesis by simp
qed

section \<open>The loader's dispatcher\<close>

lemma started_append: "started (xs @ ys) = started xs @ started ys"
  by (induction xs rule: started.induct) simp_all

lemma populate_pools: "pools (populate uri ds cs st) = pools st"
  by (induction uri ds cs st rule: populate.induct) (simp_all add: to_sql_def print_def)

lemma populate_started: "started (out (populate uri ds cs st)) = started (out st)"
  by (induction uri ds cs st rule: populate.induct)
     (simp_all add: to_sql_def print_def started_append)

lemma db_files_pools: "pools (snd (db_files e schemas uri ds fs st)) = pools st"
  by (induction e schemas uri ds fs st rule: db_files.induct)
     (simp_all add: populate_pools split: sum.splits)

lemma db_files_started: "started (out (snd (db_files e schemas uri ds fs st))) = started (out st)"
  by (induction e schemas uri ds fs st rule: db_files.induct)
     (simp_all add: populate_started split: sum.splits)

lemma db_loader_pools: "pools (snd (db_loader e src uri ds st)) = pools st"
  by (simp add: db_loader_def db_files_pools Let_def split: sum.splits)

lemma db_loader_started: "started (out (snd (db_loader e src uri ds st))) = started (out st)"
  by (simp add: db_loader_def db_files_started Let_def split: sum.splits)

lemma process_dataset_pools: "pools (process_dataset e (src, uri, ds) st) = pools st"
proof -
  obtain r st' where r: "db_loader e src uri ds (print (Processing ds) st) = (r, st')"
    by (cases "db_loader e src uri ds (print (Processing ds) st)")
  then have "pools st' = pools (print (Processing ds) st)"
    using db_loader_pools [of e src uri ds "print (Processing ds) st"] by simp
  then show ?thesis using r
    by (simp add: process_dataset_def print_def split: option.splits py_error.splits)
qed

lemma process_dataset_started:
  "started (out (process_dataset e (src, uri, ds) st)) = started (out st) @ [ds]"
proof -
  obtain r st' where r: "db_loader e src uri ds (print (Processing ds) st) = (r, st')"
    by (cases "db_loader e src uri ds (print (Processing ds) st)")
  then have "started (out st') = started (out (print (Processing ds) st))"
    using db_loader_started [of e src uri ds "print (Processing ds) st"] by simp
  then show ?thesis using r
    by (simp add: process_dataset_def print_def started_append
        split: option.splits py_error.splits)
qed

lemma pool_map_pools:
  "pools (pool_map (process_dataset e) (map (\<lambda>ds. (src, uri, ds)) ns) st) = pools st"
  by (induction ns arbitrary: st) (simp_all add: process_dataset_pools)

lemma pool_map_started:
  "started (out (pool_map (process_dataset e) (map (\<lambda>ds. (src, uri, ds)) ns) st))
     = started (out st) @ ns"
  by (induction ns arbitrary: st) (simp_all add: process_dataset_started)

lemma db_process_files_run:
  assumes "load_schemas e src = Inr schemas" "names_or_keys ds_names schemas \<noteq> []"
  shows "fst (db_process_files e src uri ds_names st) = None"
    and "pools (snd (db_process_files e src uri ds_names st))
           = pools st @ [min (length (names_or_keys ds_names schemas)) 8]"
    and "started (out (snd (db_process_files e src uri ds_names st)))
           = started (out st) @ names_or_keys ds_names schemas"
proof -
  let ?ns = "names_or_keys ds_names schemas"
  from assms(2) have pos: "\<not> min (length ?ns) 8 < 1" by (cases ?ns) simp_all
  have eq: "db_process_files e src uri ds_names st =
      (None, pool_map (process_dataset e) (map (\<lambda>ds. (src, uri, ds)) ?ns)
               (st\<lparr>pools := pools st @ [min (length ?ns) 8]\<rparr>))"
    using assms(1) pos by (simp add: db_process_files_def Let_def)
  show "fst (db_process_files e src uri ds_names st) = None" by (simp add: eq)
  show "pools (snd (db_process_files e src uri ds_names st)) = pools st @ [min (length ?ns) 8]"
    by (simp add: eq pool_map_pools)
  show "started (out (snd (db_process_files e src uri ds_names st))) = started (out st) @ ?ns"
    by (simp add: eq pool_map_started)
qed

lemma load_shop: "load_schemas shop ''src'' = Inr shop_doc"
  by (simp add: load_schemas_def shop_def shop_doc_def)

text \<open>
  Claim C6, as amended. With a loadable schema, a non-empty requested list of \<open>N\<close> names
  makes the loader create its pool with \<open>min N 8\<close> workers and start one job per name, in
  order. An empty requested list is replaced by the schema's keys: the pool then has
  \<open>min K 8\<close> workers for \<open>K \<ge> 1\<close> keys, and with no key at all the pool's creation fails
  with \<open>ValueError\<close>.
\<close>

theorem pool_size_nonempty_request:
  assumes "load_schemas e src = Inr schemas"
  shows "(ns \<noteq> [] \<longrightarrow>
            fst (db_process_files e src uri (Some ns) st) = None
          \<and> pools (snd (db_process_files e src uri (Some ns) st))
              = pools st @ [min (length ns) 8]
          \<and> started (out (snd (db_process_files e src uri (Some ns) st)))
              = started (out st) @ ns)
       \<and> (schemas \<noteq> [] \<longrightarrow>
            pools (snd (db_process_files e src uri (Some []) st))
              = pools st @ [min (length schemas) 8])
       \<and> (schemas = [] \<longrightarrow>
            db_process_files e src uri (Some []) st = (Some ValueError, st))"
proof (intro conjI impI)
  assume ne: "ns \<noteq> []"
  then have n: "names_or_keys (Some ns) schemas = ns" by (simp add: names_or_keys_def)
  with ne have n': "names_or_keys (Some ns) schemas \<noteq> []" by simp
  from db_process_files_run [OF assms n', of uri st] n
  show "fst (db_process_files e src uri (Some ns) st) = None"
    and "pools (snd (db_process_files e src uri (Some ns) st)) = pools st @ [min (length ns) 8]"
    and "started (out (snd (db_process_files e src uri (Some ns) st))) = started (out st) @ ns"
    by simp_all
next
  assume ne: "schemas \<noteq> []"
  have n: "names_or_keys (Some []) schemas = map fst schemas" by (simp add: names_or_keys_def)
  with ne have n': "names_or_keys (Some []) schemas \<noteq> []" by simp
  from db_process_files_run(2) [OF assms n', of uri st] n
  show "pools (snd (db_process_files e src uri (Some []) st))
          = pools st @ [min (length schemas) 8]"
    by simp
next
  assume "schemas = []"
  then show "db_process_files e src uri (Some []) st = (Some ValueError, st)"
    using assms by (simp add: db_process_files_def names_or_keys_def)
qed

theorem pool_size_nonempty_request_witness:
  "load_schemas shop ''src'' = Inr shop_doc
   \<and> pools (snd (db_process_files shop ''src'' ''uri'' (Some [''orders'']) db_init)) = [1]
   \<and> started (out (snd (db_process_files shop ''src'' ''uri'' (Some [''orders'']) db_init)))
       = [''orders'']
   \<and> pools (snd (db_process_files shop ''src'' ''uri'' (Some []) db_init)) = [2]"
  using pool_size_nonempty_request [OF load_shop, of "[''orders'']" "''uri''" db_init] load_shop
  by (simp add: db_init_def shop_doc_def)

text \<open>
  The claim as stated fails for the requested list of length \<open>0\<close>: the pool has two
  workers, one per schema key, not \<open>min 0 8 = 0\<close>.
\<close>

theorem empty_request_pool_counterexample:
  "pools (snd (db_process_files shop ''src'' ''uri'' (Some []) db_init)) = [2]
   \<and> [2] \<noteq> pools db_init @ [min (length ([] :: string list)) 8]"
proof -
  have "names_or_keys (Some []) shop_doc \<noteq> []"
    by (simp add: names_or_keys_def shop_doc_def)
  from db_process_files_run(2) [OF load_shop this, of "''uri''" db_init]
  show ?thesis by (simp add: names_or_keys_def shop_doc_def db_init_def)
qed

section \<open>Sink writes\<close>

lemma to_sql_extends:
  "tables st k = Some old \<Longrightarrow> \<exists>new. tables (to_sql df uri ds st) k = Some new \<and> prefix old new"
  by (auto simp: to_sql_def)

lemma populate_extends:
  "tables st k = Some old \<Longrightarrow>
   \<exists>new. tables (populate uri ds cs st) k = Some new \<and> prefix old new"
proof (induction uri ds cs st arbitrary: old rule: populate.induct)
  case (1 uri ds st)
  then show ?case by simp
next
  case (2 uri ds idx df rest st)
  let ?st1 = "to_sql df uri ds (print (Populating idx ds) st)"
  from "2.prems" have "tables (print (Populating idx ds) st) k = Some old"
    by (simp add: print_def)
  then obtain mid where mid: "tables ?st1 k = Some mid" "prefix old mid"
    using to_sql_extends by blast
  from "2.IH" [OF mid(1)] obtain new where
    "tables (populate uri ds rest ?st1) k = Some new" "prefix mid new" by blast
  with mid(2) show ?case by (auto intro: prefix_order.trans)
qed

lemma db_files_extends:
  "tables st k = Some old \<Longrightarrow>
   \<exists>new. tables (snd (db_files e schemas uri ds fs st)) k = Some new \<and> prefix old new"
proof (induction e schemas uri ds fs st arbitrary: old rule: db_files.induct)
  case (1 e schemas uri ds st)
  then show ?case by simp
next
  case (2 e schemas uri ds f rest st)
  show ?case
  proof (cases "db_read_csv e f schemas")
    case (Inl err)
    with "2.prems" show ?thesis by simp
  next
    case (Inr df_reader)
    let ?st1 = "populate uri ds (List.enumerate 0 df_reader) st"
    from populate_extends [OF "2.prems"] obtain mid where
      mid: "tables ?st1 k = Some mid" "prefix old mid" by blast
    from "2.IH" [OF Inr mid(1)] obtain new where
      "tables (snd (db_files e schemas uri ds rest ?st1)) k = Some new" "prefix mid new"
      by blast
    with mid(2) Inr show ?thesis by (auto intro: prefix_order.trans)
  qed
qed

lemma db_loader_extends:
  "tables st k = Some old \<Longrightarrow>
   \<exists>new. tables (snd (db_loader e src uri ds st)) k = Some new \<and> prefix old new"
  by (auto simp: db_loader_def Let_def db_files_extends split: sum.splits)

lemma process_dataset_extends:
  assumes "tables st k = Some old"
  shows "\<exists>new. tables (process_dataset e (src, uri, ds) st) k = Some new \<and> prefix old new"
proof -
  obtain r st' where r: "db_loader e src uri ds (print (Processing ds) st) = (r, st')"
    by (cases "db_loader e src uri ds (print (Processing ds) st)")
  from assms have "tables (print (Processing ds) st) k = Some old" by (simp add: print_def)
  from db_loader_extends [OF this, of e src uri ds] r
  obtain new where "tables st' k = Some new" "prefix old new" by auto
  then show ?thesis using r
    by (auto simp: process_dataset_def print_def split: option.splits py_error.splits)
qed

lemma pool_map_extends:
  "tables st k = Some old \<Longrightarrow>
   \<exists>new. tables (pool_map (process_dataset e) (map (\<lambda>ds. (src, uri, ds)) ns) st) k = Some new
         \<and> prefix old new"
proof (induction ns arbitrary: st old)
  case Nil
  then show ?case by simp
next
  case (Cons ds ns)
  from process_dataset_extends [OF Cons.prems, of e src uri ds] obtain mid where
    mid: "tables (process_dataset e (src, uri, ds) st) k = Some mid" "prefix old mid" by blast
  from Cons.IH [OF mid(1)] obtain new where
    "tables (pool_map (process_dataset e) (map (\<lambda>ds. (src, uri, ds)) ns)
       (process_dataset e (src, uri, ds) st)) k = Some new" "prefix mid new" by blast
  with mid(2) show ?case by (auto intro: prefix_order.trans)
qed

lemma db_process_files_extends:
  assumes "tables st k = Some old"
  shows "\<exists>new. tables (snd (db_process_files e src uri ds_names st)) k = Some new
           \<and> prefix old new"
proof (cases "load_schemas e src")
  case (Inl err)
  with assms show ?thesis by (simp add: db_process_files_def)
next
  case (Inr schemas)
  let ?ns = "names_or_keys ds_names schemas"
  show ?thesis
  proof (cases "min (length ?ns) 8 < 1")
    case True
    with Inr assms show ?thesis by (simp add: db_process_files_def Let_def)
  next
    case False
    let ?st1 = "st\<lparr>pools := pools st @ [min (length ?ns) 8]\<rparr>"
    from assms have "tables ?st1 k = Some old" by simp
    from pool_map_extends [OF this, of e src uri ?ns] False Inr assms
    show ?thesis by (simp add: db_process_files_def Let_def)
  qed
qed

text \<open>
  Claim C2, as amended. The table sink is append-only: a batch write, and so a whole run of
  the loader's dispatcher, leaves the rows each table held as a prefix of the rows it holds
  afterwards, and the written table gains exactly the batch's rows at its end. The file sink
  is not: a batch write makes the destination file hold the batch's records, whatever it
  held before, and leaves every other file as it was.
\<close>

theorem table_sink_appends_file_sink_replaces:
  "(\<forall>k old. tables st k = Some old \<longrightarrow>
       (\<exists>new. tables (to_sql df uri ds st) k = Some new \<and> prefix old new))
   \<and> tables (to_sql df uri ds st) (uri, ds)
       = Some ((case tables st (uri, ds) of None \<Rightarrow> [] | Some old \<Rightarrow> old) @ rows df)
   \<and> (\<forall>k old. tables st k = Some old \<longrightarrow>
       (\<exists>new. tables (snd (db_process_files e src uri ds_names st)) k = Some new
              \<and> prefix old new))
   \<and> files (to_json df tgt ds file_name st2) (tgt @ ''/'' @ ds @ ''/'' @ file_name) = Some df
   \<and> (\<forall>p. p \<noteq> tgt @ ''/'' @ ds @ ''/'' @ file_name \<longrightarrow>
         files (to_json df tgt ds file_name st2) p = files st2 p)"
proof (intro conjI allI impI)
  fix k old assume "tables st k = Some old"
  then show "\<exists>new. tables (to_sql df uri ds st) k = Some new \<and> prefix old new"
    by (rule to_sql_extends)
next
  show "tables (to_sql df uri ds st) (uri, ds)
       = Some ((case tables st (uri, ds) of None \<Rightarrow> [] | Some old \<Rightarrow> old) @ rows df)"
    by (simp add: to_sql_def)
next
  fix k old assume "tables st k = Some old"
  then show "\<exists>new. tables (snd (db_process_files e src uri ds_names st)) k = Some new
              \<and> prefix old new"
    by (rule db_process_files_extends)
next
  show "files (to_json df tgt ds file_name st2) (tgt @ ''/'' @ ds @ ''/'' @ file_name) = Some df"
    by (simp add: to_json_def)
next
  fix p assume "p \<noteq> tgt @ ''/'' @ ds @ ''/'' @ file_name"
  then show "files (to_json df tgt ds file_name st2) p = files st2 p"
    by (simp add: to_json_def)
qed

theorem table_sink_appends_file_sink_replaces_witness:
  "tables (db_init\<lparr>tables := [(''uri'', ''orders'') \<mapsto> [[''1'']]]\<rparr>) (''uri'', ''orders'')
     = Some [[''1'']]
   \<and> tables (to_sql \<lparr>columns = [''id''], rows = [[''2'']]\<rparr> ''uri'' ''orders''
               (db_init\<lparr>tables := [(''uri'', ''orders'') \<mapsto> [[''1'']]]\<rparr>)) (''uri'', ''orders'')
       = Some [[''1''], [''2'']]
   \<and> files (to_json \<lparr>columns = [''id''], rows = [[''2'']]\<rparr> ''tgt'' ''orders'' ''part-0000''
              fc_rerun) ''tgt/orders/part-0000''
       = Some \<lparr>columns = [''id''], rows = [[''2'']]\<rparr>"
  using table_sink_appends_file_sink_replaces
    [of "db_init\<lparr>tables := [(''uri'', ''orders'') \<mapsto> [[''1'']]]\<rparr>"
        "\<lparr>columns = [''id''], rows = [[''2'']]\<rparr>" "''uri''" "''orders''"
        shop "''src''" None "''tgt''" "''part-0000''" fc_rerun]
  by (simp add: db_init_def)

text \<open>
  The claim as stated fails for the file sink: a destination file holding the record
  \<open>1\<close> holds only the record \<open>2\<close> after the batch \<open>2\<close> is written to it.
\<close>

theorem file_sink_overwrites_counterexample:
  "files fc_rerun ''tgt/orders/part-0000'' = Some \<lparr>columns = [''id''], rows = [[''1'']]\<rparr>
   \<and> files (to_json \<lparr>columns = [''id''], rows = [[''2'']]\<rparr> ''tgt'' ''orders'' ''part-0000''
              fc_rerun) ''tgt/orders/part-0000''
       = Some \<lparr>columns = [''id''], rows = [[''2'']]\<rparr>
   \<and> \<not> prefix [[''1'']] [[''2'' :: string]]"
  by (simp add: fc_rerun_def to_json_def)

section \<open>Datasets without files, and the default dataset list\<close>

text \<open>
  Claim C5. When the schema loads and the dataset's directory has no file matching
  \<^verbatim>\<open>part-*\<close>, the job of either application raises its \<open>NameError\<close> (the not-found
  outcome) and hands back the state it was given: no directory made, no file written, no
  table touched, nothing printed. Under the dispatchers the only change is the three lines
  printed for that dataset.
\<close>

theorem no_files_not_found_no_write:
  assumes "load_schemas e src = Inr schemas"
    and "glob e (src @ ''/'' @ ds @ ''/part-*'') = []"
  shows "file_converter e src tgt ds st = (Some (NameError (''file not found '' @ ds)), st)
     \<and> db_loader e src uri ds st2 = (Some (NameError (''No files found for '' @ ds)), st2)
     \<and> fc_loop e src tgt [ds] st
         = (None, st\<lparr>out := out st @ [Processing ds,
                                       Printed (NameError (''file not found '' @ ds)),
                                       ErrorProcessing ds]\<rparr>)
     \<and> process_dataset e (src, uri, ds) st2
         = st2\<lparr>out := out st2 @ [Processing ds,
                                  Printed (NameError (''No files found for '' @ ds)),
                                  Completed ds]\<rparr>"
proof -
  have fc: "file_converter e src tgt ds s = (Some (NameError (''file not found '' @ ds)), s)"
    for s using assms by (simp add: file_converter_def)
  have db: "db_loader e src uri ds s = (Some (NameError (''No files found for '' @ ds)), s)"
    for s using assms by (simp add: db_loader_def)
  have "fc_loop e src tgt [ds] st
         = (None, st\<lparr>out := out st @ [Processing ds,
                                       Printed (NameError (''file not found '' @ ds)),
                                       ErrorProcessing ds]\<rparr>)"
    by (simp add: fc print_def)
  moreover have "process_dataset e (src, uri, ds) st2
         = st2\<lparr>out := out st2 @ [Processing ds,
                                  Printed (NameError (''No files found for '' @ ds)),
                                  Completed ds]\<rparr>"
    by (simp add: process_dataset_def db print_def)
  ultimately show ?thesis using fc db by simp
qed

theorem no_files_not_found_no_write_witness:
  "load_schemas shop ''src'' = Inr shop_doc
   \<and> glob shop ''src/returns/part-*'' = []
   \<and> file_converter shop ''src'' ''tgt'' ''returns'' fc_init
       = (Some (NameError ''file not found returns''), fc_init)
   \<and> db_loader shop ''src'' ''uri'' ''returns'' db_init
       = (Some (NameError ''No files found for returns''), db_init)
   \<and> tables (process_dataset shop (''src'', ''uri'', ''returns'') db_init) = Map.empty"
proof -
  have g: "glob shop (''src'' @ ''/'' @ ''returns'' @ ''/part-*'') = []"
    by (simp add: shop_def)
  from no_files_not_found_no_write [OF load_shop g, of "''tgt''" fc_init "''uri''" db_init]
    load_shop g
  show ?thesis by (simp add: db_init_def)
qed

text \<open>
  An explicitly empty dataset-name list and an omitted one are both falsy: in both cases
  the names are the schema's keys, and each dispatcher returns the same result from the same
  state for the two. The converter then runs its loop over the keys; the loader, with a
  loadable, non-empty schema, starts the schema's keys in document order.
\<close>

lemma falsy_list_takes_keys:
  "names_or_keys (Some []) schemas = map fst schemas"
  "names_or_keys None schemas = map fst schemas"
  by (simp_all add: names_or_keys_def)

lemma fc_process_files_names:
  "load_schemas e src = Inr schemas \<Longrightarrow>
   fc_process_files e src tgt ds_names st
     = fc_loop e src tgt (names_or_keys ds_names schemas) st"
  by (simp add: fc_process_files_def)

lemma empty_list_same_as_omitted:
  "fc_process_files e src tgt (Some []) st = fc_process_files e src tgt None st"
  "db_process_files e src uri (Some []) st2 = db_process_files e src uri None st2"
  by (simp_all add: fc_process_files_def db_process_files_def falsy_list_takes_keys
      split: sum.splits)

lemma loader_empty_list_starts_keys:
  assumes "load_schemas e src = Inr schemas" "schemas \<noteq> []"
  shows "started (out (snd (db_process_files e src uri (Some []) st)))
           = started (out st) @ map fst schemas"
  using db_process_files_run(3) [OF assms(1), of "Some []" uri st] assms(2)
  by (simp add: falsy_list_takes_keys)

section \<open>Runs of the two dispatchers\<close>

lemma load_shop_bad: "load_schemas shop_bad ''src'' = Inr shop_doc"
  by (simp add: load_schemas_def shop_bad_def shop_def shop_doc_def)

lemma parent_customers: "parent_segment ''src/customers/part-0000'' = Inr ''customers''"
  by (simp add: parent_segment_def is_sep_def)

lemma parent_foo: "parent_segment ''src/foo/part-0000'' = Inr ''foo''"
  by (simp add: parent_segment_def is_sep_def)

lemma last_orders: "last_segment ''src/orders/part-0000'' = ''part-0000''"
  by (simp add: last_segment_def is_sep_def)

lemma last_customers: "last_segment ''src/customers/part-0000'' = ''part-0000''"
  by (simp add: last_segment_def is_sep_def)

lemma columns_orders: "get_column_names shop_doc ''orders'' = Inr [''id'', ''amount'', ''note'']"
  by (simp add: get_column_names_def shop_doc_def)

lemma columns_customers: "get_column_names shop_doc ''customers'' = Inr [''cid'', ''name'']"
  by (simp add: get_column_names_def shop_doc_def)

lemma columns_foo: "get_column_names shop_doc ''foo'' = Inl (KeyError ''foo'')"
  by (simp add: get_column_names_def shop_doc_def)

lemma one_batch: "text_file_reader 10000 [r] = [[r]]" "text_file_reader 10000 [r, r'] = [[r, r']]"
  by (simp_all add: text_file_reader_def chunks_step)

lemma shop_glob:
  "glob shop ''src/orders/part-*'' = [''src/orders/part-0000'']"
  "glob shop ''src/customers/part-*'' = [''src/customers/part-0000'']"
  "glob shop ''src/foo/part-*'' = [''src/foo/part-0000'']"
  "glob shop ''src/returns/part-*'' = []"
  by (simp_all add: shop_def)

lemma shop_csv:
  "csv shop ''src/orders/part-0000'' = Some [[''1'', ''9.99'', ''a''], [''2'', ''4.50'', ''b'']]"
  "csv shop ''src/customers/part-0000'' = Some [[''7'', ''Ann'']]"
  "csv shop ''src/foo/part-0000'' = Some [[''x'']]"
  by (simp_all add: shop_def)

lemma fc_foo_orders:
  "fc_process_files shop ''src'' ''tgt'' (Some [''foo'', ''orders'']) fc_init
     = (Some (KeyError ''foo''), fc_init\<lparr>out := [Processing ''foo'']\<rparr>)"
  by (simp add: fc_process_files_def load_shop names_or_keys_def file_converter_def
      fc_read_csv_def parent_foo columns_foo print_def fc_init_def shop_glob shop_csv)

lemma db_foo_orders:
  "db_process_files shop ''src'' ''uri'' (Some [''foo'', ''orders'']) db_init
     = (None,
        \<lparr>out = [Processing ''foo'', Printed (KeyError ''foo''), Completed ''foo'',
                Processing ''orders'', Populating 0 ''orders'', Completed ''orders''],
         tables = [(''uri'', ''orders'') \<mapsto> [[''1'', ''9.99'', ''a''], [''2'', ''4.50'', ''b'']]],
         pools = [2]\<rparr>)"
  by (simp add: db_process_files_def load_shop names_or_keys_def process_dataset_def
      db_loader_def db_read_csv_def parent_foo parent_orders columns_foo columns_orders
      one_batch enumerate_eq_zip to_sql_def print_def db_init_def shop_glob shop_csv)

lemma shop_bad_glob:
  "glob shop_bad ''src/orders/part-*'' = [''src/orders/part-0000'']"
  "glob shop_bad ''src/customers/part-*'' = [''src/customers/part-0000'']"
  by (simp_all add: shop_bad_def shop_def)

lemma shop_bad_csv:
  "csv shop_bad ''src/orders/part-0000'' = None"
  "csv shop_bad ''src/customers/part-0000'' = Some [[''7'', ''Ann'']]"
  by (simp_all add: shop_bad_def shop_def)

text \<open>
  What holds in general. The schema's keys are distinct and are the keys of the document.
  A dataset without files never stops the converter's loop, and the loop starts every name
  when each job ends normally or with \<open>NameError\<close>. The loader starts every name whatever
  the jobs do (\<open>pool_map_started\<close>).
\<close>

lemma update_fold_distinct:
  "distinct (map fst d) \<Longrightarrow>
   distinct (map fst (foldl (\<lambda>d (k, v). AList.update k v d) d pairs))"
  by (induction pairs arbitrary: d) (auto simp: distinct_update)

lemma update_fold_keys:
  "fst ` set (foldl (\<lambda>d (k, v). AList.update k v d) d pairs) = fst ` set d \<union> fst ` set pairs"
proof (induction pairs arbitrary: d)
  case Nil
  then show ?case by simp
next
  case (Cons kv pairs)
  obtain k v where kv: "kv = (k, v)" by (cases kv)
  have "fst ` set (foldl (\<lambda>d (k, v). AList.update k v d) d (kv # pairs))
      = fst ` set (AList.update k v d) \<union> fst ` set pairs"
    using Cons.IH [of "AList.update k v d"] by (simp add: kv)
  also have "\<dots> = fst ` set d \<union> fst ` set (kv # pairs)"
    by (simp add: dom_update kv)
  finally show ?case .
qed

lemma load_schemas_keys:
  assumes "load_schemas e src = Inr schemas"
  shows "distinct (map fst schemas)"
    and "json_file e (src @ ''/schemas.json'') = Some pairs \<Longrightarrow>
         set (map fst schemas) = fst ` set pairs"
proof -
  from assms obtain ps where ps: "json_file e (src @ ''/schemas.json'') = Some ps"
    and s: "schemas = foldl (\<lambda>d (k, v). AList.update k v d) [] ps"
    by (auto simp: load_schemas_def split: option.splits)
  show "distinct (map fst schemas)" unfolding s by (rule update_fold_distinct) simp
  show "set (map fst schemas) = fst ` set pairs"
    if "json_file e (src @ ''/schemas.json'') = Some pairs"
    using that ps s by (simp add: update_fold_keys)
qed

lemma fc_files_out: "out (snd (fc_files e schemas tgt ds fs st)) = out st"
  by (induction e schemas tgt ds fs st rule: fc_files.induct)
     (simp_all add: to_json_def split: sum.splits)

lemma file_converter_out: "out (snd (file_converter e src tgt ds st)) = out st"
  by (simp add: file_converter_def fc_files_out Let_def split: sum.splits)

lemma fc_loop_skips_missing:
  assumes "load_schemas e src = Inr schemas" "glob e (src @ ''/'' @ ds @ ''/part-*'') = []"
  shows "fc_loop e src tgt (ds # rest) st
       = fc_loop e src tgt rest
           (st\<lparr>out := out st @ [Processing ds,
                                 Printed (NameError (''file not found '' @ ds)),
                                 ErrorProcessing ds]\<rparr>)"
  using assms by (simp add: file_converter_def print_def)

lemma fc_loop_all_started:
  assumes "\<forall>ds\<in>set ns. \<forall>s. fst (file_converter e src tgt ds s)
             \<in> insert None (range (\<lambda>msg. Some (NameError msg)))"
  shows "fst (fc_loop e src tgt ns st) = None
       \<and> started (out (snd (fc_loop e src tgt ns st))) = started (out st) @ ns"
  using assms
proof (induction ns arbitrary: st)
  case Nil
  then show ?case by simp
next
  case (Cons ds ns)
  let ?st1 = "print (Processing ds) st"
  obtain r st' where r: "file_converter e src tgt ds ?st1 = (r, st')"
    by (cases "file_converter e src tgt ds ?st1")
  from file_converter_out [of e src tgt ds ?st1] r
  have o: "out st' = out st @ [Processing ds]" by (simp add: print_def)
  from Cons.prems r have "r = None \<or> (\<exists>msg. r = Some (NameError msg))"
    by (metis (no_types, lifting) fst_conv insertE list.set_intros(1) rangeE)
  then show ?case
  proof
    assume "r = None"
    with r o Cons.IH [of st'] Cons.prems show ?thesis by (simp add: started_append)
  next
    assume "\<exists>msg. r = Some (NameError msg)"
    then obtain msg where m: "r = Some (NameError msg)" by blast
    let ?st2 = "print (ErrorProcessing ds) (print (Printed (NameError msg)) st')"
    have "started (out ?st2) = started (out st) @ [ds]"
      by (simp add: print_def o started_append)
    with r m Cons.IH [of ?st2] Cons.prems show ?thesis by simp
  qed
qed

lemma missing_then_valid_converter:
  "fc_process_files shop ''src'' ''tgt'' (Some [''returns'', ''orders'']) fc_init
     = (None,
        \<lparr>out = [Processing ''returns'', Printed (NameError ''file not found returns''),
                ErrorProcessing ''returns'', Processing ''orders''],
         dirs = {''tgt/orders''},
         files = [''tgt/orders/part-0000'' \<mapsto>
                    \<lparr>columns = [''id'', ''amount'', ''note''],
                     rows = [[''1'', ''9.99'', ''a''], [''2'', ''4.50'', ''b'']]\<rparr>]\<rparr>)"
  by (simp add: fc_process_files_def load_shop names_or_keys_def file_converter_def
      fc_read_csv_def parent_orders columns_orders last_orders to_json_def print_def
      fc_init_def shop_glob shop_csv)

lemma missing_then_valid_loader:
  "db_process_files shop ''src'' ''uri'' (Some [''returns'', ''orders'']) db_init
     = (None,
        \<lparr>out = [Processing ''returns'', Printed (NameError ''No files found for returns''),
                Completed ''returns'',
                Processing ''orders'', Populating 0 ''orders'', Completed ''orders''],
         tables = [(''uri'', ''orders'') \<mapsto> [[''1'', ''9.99'', ''a''], [''2'', ''4.50'', ''b'']]],
         pools = [2]\<rparr>)"
  by (simp add: db_process_files_def load_shop names_or_keys_def process_dataset_def
      db_loader_def db_read_csv_def parent_orders columns_orders
      one_batch enumerate_eq_zip to_sql_def print_def db_init_def shop_glob shop_csv)

text \<open>
  Claim C1. One dataset's failure or not-found outcome never keeps the remaining datasets
  from completing. The converter does not keep to it. Requested \<^verbatim>\<open>["foo", "orders"]\<close>, where
  \<^verbatim>\<open>foo\<close> has a part file but no schema entry, the converter's dispatcher leaves with
  \<open>KeyError\<close> after starting \<^verbatim>\<open>foo\<close>: \<^verbatim>\<open>orders\<close> is never started and its output file is
  not written. The loader, given the same request, prints the error and completes
  \<^verbatim>\<open>orders\<close>, whose table holds both rows.
\<close>

theorem converter_stops_at_first_other_error:
  "fc_process_files shop ''src'' ''tgt'' (Some [''foo'', ''orders'']) fc_init
     = (Some (KeyError ''foo''), fc_init\<lparr>out := [Processing ''foo'']\<rparr>)
   \<and> files (snd (fc_process_files shop ''src'' ''tgt'' (Some [''foo'', ''orders'']) fc_init))
        ''tgt/orders/part-0000'' = None
   \<and> db_process_files shop ''src'' ''uri'' (Some [''foo'', ''orders'']) db_init
     = (None,
        \<lparr>out = [Processing ''foo'', Printed (KeyError ''foo''), Completed ''foo'',
                Processing ''orders'', Populating 0 ''orders'', Completed ''orders''],
         tables = [(''uri'', ''orders'') \<mapsto> [[''1'', ''9.99'', ''a''], [''2'', ''4.50'', ''b'']]],
         pools = [2]\<rparr>)"
  by (simp add: fc_foo_orders db_foo_orders; simp add: fc_init_def)

text \<open>
  Claim C8. With the dataset-name list omitted, the dispatcher processes exactly the
  schema's keys, each once. The converter does not keep to it. The schema's keys are
  \<^verbatim>\<open>orders\<close> and \<^verbatim>\<open>customers\<close>, and pandas cannot parse the part file of \<^verbatim>\<open>orders\<close>: the
  converter's dispatcher leaves with that error after starting \<^verbatim>\<open>orders\<close> and never
  starts \<^verbatim>\<open>customers\<close>. The loader starts both and loads \<^verbatim>\<open>customers\<close>.
\<close>

theorem converter_default_list_cut_short:
  "map fst shop_doc = [''orders'', ''customers'']
   \<and> load_schemas shop_bad ''src'' = Inr shop_doc
   \<and> fc_process_files shop_bad ''src'' ''tgt'' None fc_init
       = (Some PandasError, fc_init\<lparr>out := [Processing ''orders'']\<rparr>)
   \<and> started (out (snd (fc_process_files shop_bad ''src'' ''tgt'' None fc_init))) = [''orders'']
   \<and> db_process_files shop_bad ''src'' ''uri'' None db_init
     = (None,
        \<lparr>out = [Processing ''orders'', Printed PandasError, Completed ''orders'',
                Processing ''customers'', Populating 0 ''customers'', Completed ''customers''],
         tables = [(''uri'', ''customers'') \<mapsto> [[''7'', ''Ann'']]],
         pools = [2]\<rparr>)"
proof -
  have k: "map fst shop_doc = [''orders'', ''customers'']" by (simp add: shop_doc_def)
  have fc: "fc_process_files shop_bad ''src'' ''tgt'' None fc_init
       = (Some PandasError, fc_init\<lparr>out := [Processing ''orders'']\<rparr>)"
    by (simp add: fc_process_files_def load_shop_bad names_or_keys_def k file_converter_def
        fc_read_csv_def parent_orders columns_orders print_def fc_init_def
        shop_bad_glob shop_bad_csv)
  have db: "db_process_files shop_bad ''src'' ''uri'' None db_init
     = (None,
        \<lparr>out = [Processing ''orders'', Printed PandasError, Completed ''orders'',
                Processing ''customers'', Populating 0 ''customers'', Completed ''customers''],
         tables = [(''uri'', ''customers'') \<mapsto> [[''7'', ''Ann'']]],
         pools = [2]\<rparr>)"
    by (simp add: db_process_files_def load_shop_bad names_or_keys_def k process_dataset_def
        db_loader_def db_read_csv_def parent_orders parent_customers columns_orders
        columns_customers one_batch enumerate_eq_zip to_sql_def print_def db_init_def
        shop_bad_glob shop_bad_csv)
  show ?thesis by (simp add: k load_shop_bad fc db; simp add: fc_init_def)
qed

text \<open>
  With an empty list, as with an omitted one, the converter starts every key of the schema,
  in document order, when each job ends normally or with \<open>NameError\<close>; on the example
  source root it converts both datasets.
\<close>

lemma converter_empty_list_starts_keys:
  assumes "load_schemas e src = Inr schemas"
    and "\<forall>ds\<in>set (map fst schemas). \<forall>s. fst (file_converter e src tgt ds s)
             \<in> insert None (range (\<lambda>msg. Some (NameError msg)))"
  shows "fst (fc_process_files e src tgt (Some []) st) = None
       \<and> started (out (snd (fc_process_files e src tgt (Some []) st)))
           = started (out st) @ map fst schemas"
  using fc_loop_all_started [OF assms(2), of st] assms(1)
  by (simp add: fc_process_files_names falsy_list_takes_keys)

lemma converter_empty_list_healthy:
  "fc_process_files shop ''src'' ''tgt'' (Some []) fc_init
     = (None,
        \<lparr>out = [Processing ''orders'', Processing ''customers''],
         dirs = {''tgt/orders'', ''tgt/customers''},
         files = [''tgt/orders/part-0000'' \<mapsto>
                    \<lparr>columns = [''id'', ''amount'', ''note''],
                     rows = [[''1'', ''9.99'', ''a''], [''2'', ''4.50'', ''b'']]\<rparr>,
                  ''tgt/customers/part-0000'' \<mapsto>
                    \<lparr>columns = [''cid'', ''name''], rows = [[''7'', ''Ann'']]\<rparr>]\<rparr>)"
proof -
  have k: "map fst shop_doc = [''orders'', ''customers'']" by (simp add: shop_doc_def)
  show ?thesis
    by (simp add: fc_process_files_def load_shop names_or_keys_def k file_converter_def
        fc_read_csv_def parent_orders parent_customers columns_orders columns_customers
        last_orders last_customers to_json_def print_def fc_init_def shop_glob shop_csv)
       (auto simp: fun_eq_iff)
qed

lemma converter_empty_list_bad:
  "fc_process_files shop_bad ''src'' ''tgt'' (Some []) fc_init
     = (Some PandasError, fc_init\<lparr>out := [Processing ''orders'']\<rparr>)"
proof -
  have k: "map fst shop_doc = [''orders'', ''customers'']" by (simp add: shop_doc_def)
  show ?thesis
    by (simp add: fc_process_files_def load_shop_bad names_or_keys_def k file_converter_def
        fc_read_csv_def parent_orders columns_orders print_def fc_init_def
        shop_bad_glob shop_bad_csv)
qed

lemma loader_empty_list_bad:
  "db_process_files shop_bad ''src'' ''uri'' (Some []) db_init
     = (None,
        \<lparr>out = [Processing ''orders'', Printed PandasError, Completed ''orders'',
                Processing ''customers'', Populating 0 ''customers'', Completed ''customers''],
         tables = [(''uri'', ''customers'') \<mapsto> [[''7'', ''Ann'']]],
         pools = [2]\<rparr>)"
proof -
  have k: "map fst shop_doc = [''orders'', ''customers'']" by (simp add: shop_doc_def)
  show ?thesis
    by (simp add: db_process_files_def load_shop_bad names_or_keys_def k process_dataset_def
        db_loader_def db_read_csv_def parent_orders parent_customers columns_orders
        columns_customers one_batch enumerate_eq_zip to_sql_def print_def db_init_def
        shop_bad_glob shop_bad_csv)
qed

text \<open>
  Claim C9. An explicitly empty dataset-name list is treated as an omitted one, so that all
  datasets in the schema are processed. The converter takes the schema's keys, \<^verbatim>\<open>orders\<close>
  and \<^verbatim>\<open>customers\<close>, for the empty list, and returns what it returns for the omitted list,
  but it does not process them all: pandas cannot parse the part file of \<^verbatim>\<open>orders\<close>, the
  converter's dispatcher leaves with that error after starting \<^verbatim>\<open>orders\<close>, and
  \<^verbatim>\<open>customers\<close> is never started, its output file never written. The loader, given the
  empty list, starts both and loads \<^verbatim>\<open>customers\<close>.
\<close>

theorem converter_empty_list_cut_short:
  "names_or_keys (Some []) shop_doc = [''orders'', ''customers'']
   \<and> load_schemas shop_bad ''src'' = Inr shop_doc
   \<and> fc_process_files shop_bad ''src'' ''tgt'' (Some []) fc_init
       = fc_process_files shop_bad ''src'' ''tgt'' None fc_init
   \<and> fc_process_files shop_bad ''src'' ''tgt'' (Some []) fc_init
       = (Some PandasError, fc_init\<lparr>out := [Processing ''orders'']\<rparr>)
   \<and> started (out (snd (fc_process_files shop_bad ''src'' ''tgt'' (Some []) fc_init)))
       = [''orders'']
   \<and> files (snd (fc_process_files shop_bad ''src'' ''tgt'' (Some []) fc_init))
        ''tgt/customers/part-0000'' = None
   \<and> db_process_files shop_bad ''src'' ''uri'' (Some []) db_init
     = (None,
        \<lparr>out = [Processing ''orders'', Printed PandasError, Completed ''orders'',
                Processing ''customers'', Populating 0 ''customers'', Completed ''customers''],
         tables = [(''uri'', ''customers'') \<mapsto> [[''7'', ''Ann'']]],
         pools = [2]\<rparr>)"
proof -
  have k: "names_or_keys (Some []) shop_doc = [''orders'', ''customers'']"
    by (simp add: names_or_keys_def shop_doc_def)
  have e: "fc_process_files shop_bad ''src'' ''tgt'' (Some []) fc_init
       = fc_process_files shop_bad ''src'' ''tgt'' None fc_init"
    by (rule empty_list_same_as_omitted(1))
  have s: "started (out (snd (fc_process_files shop_bad ''src'' ''tgt'' (Some []) fc_init)))
       = [''orders'']"
    by (simp add: converter_empty_list_bad)
  have f: "files (snd (fc_process_files shop_bad ''src'' ''tgt'' (Some []) fc_init))
        ''tgt/customers/part-0000'' = None"
    by (simp add: converter_empty_list_bad) (simp add: fc_init_def)
  from k load_shop_bad e converter_empty_list_bad s f loader_empty_list_bad
  show ?thesis by (intro conjI)
qed

end
